theory Spec2Isabelle
  imports Main
begin

section \<open>minidot.py: a wrapper that prepares sequences, runs an aligner and a renderer\<close>

text \<open>
  The script is a straight-line program with two nested loops. Its effects (opening,
  writing and closing files, spawning child processes, printing) are modelled as a trace
  of events, and its uncaught exceptions as values. What the outside world answers is
  taken from an environment record: what \<^verbatim>\<open>pysam.FastaFile\<close> finds at a path, whether
  \<^verbatim>\<open>open(path, "w")\<close> succeeds, what \<^verbatim>\<open>subprocess.call\<close> returns for an argument vector, and
  whether the buffer of standard output can be written out when the interpreter shuts down.
  Strings are byte lists; the separators the script looks for are ASCII.
\<close>

subsection \<open>Strings: \<^verbatim>\<open>str.split\<close>, \<^verbatim>\<open>os.path.basename\<close>, \<^verbatim>\<open>"%s" % n\<close>\<close>

definition TAB :: char where
  "TAB = CHR 0x09"

definition NL :: char where
  "NL = CHR 0x0A"

text \<open>\<^verbatim>\<open>s.split(sep)\<close> for a separator of one character: never the empty list.\<close>

fun split_str :: "char \<Rightarrow> string \<Rightarrow> string list" where
  "split_str sep [] = [[]]"
| "split_str sep (c # cs) =
     (if c = sep then [] # split_str sep cs
      else (c # hd (split_str sep cs)) # tl (split_str sep cs))"

text \<open>\<^verbatim>\<open>os.path.basename(p)\<close> (posixpath): what follows the last slash.\<close>

definition os_path_basename :: "string \<Rightarrow> string" where
  "os_path_basename p = last (split_str (CHR ''/'') p)"

text \<open>Line 34: \<^verbatim>\<open>os.path.basename(fasta).split('.')[0]\<close>.\<close>

definition fasta_basename :: "string \<Rightarrow> string" where
  "fasta_basename fasta = hd (split_str (CHR ''.'') (os_path_basename fasta))"

text \<open>Line 25: \<^verbatim>\<open>prefix = args.output.split('.')[0]+'.'\<close>.\<close>

definition prefix_of :: "string \<Rightarrow> string" where
  "prefix_of output = hd (split_str (CHR ''.'') output) @ ''.''"

text \<open>The decimal numeral \<^verbatim>\<open>"%s" % n\<close> prints for a length.\<close>

definition digit_char :: "nat \<Rightarrow> char" where
  "digit_char d = ''0123456789'' ! d"

fun str_of_nat :: "nat \<Rightarrow> string" where
  "str_of_nat n =
     (if n < 10 then [digit_char n] else str_of_nat (n div 10) @ [digit_char (n mod 10)])"

declare str_of_nat.simps [simp del]

text \<open>Line 39: \<^verbatim>\<open>"%s\t%s\n" % (basename, len(seq))\<close>.\<close>

definition tlen_row :: "string \<Rightarrow> nat \<Rightarrow> string" where
  "tlen_row basename n = basename @ [TAB] @ str_of_nat n @ [NL]"

text \<open>Line 40: \<^verbatim>\<open>">%s\n%s\n" % (basename, "".join(join_seq))\<close>.\<close>

definition fasta_entry :: "string \<Rightarrow> string list \<Rightarrow> string" where
  "fasta_entry basename join_seq = ''>'' @ basename @ [NL] @ concat join_seq @ [NL]"

subsection \<open>The argument namespace (lines 9 to 24)\<close>

text \<open>
  \<^verbatim>\<open>args\<close> after \<^verbatim>\<open>parse_args\<close>: every option holds a string but \<^verbatim>\<open>title\<close>, which
  is \<^verbatim>\<open>None\<close> when absent, and the two \<^verbatim>\<open>store_true\<close> switches.
\<close>

record args =
  minidotr :: string
  "output" :: string
  fasta :: "string list"
  mapper :: string
  mode :: string
  tmp :: string
  width :: string
  thick :: string
  title :: "string option"
  no_self :: bool
  strip :: bool
  identity :: string

text \<open>
  A command line, as far as the parser's configuration distinguishes it: the three
  positionals, and for each option the value it was supplied with, if it was supplied.
  The tokenisation done by \<^verbatim>\<open>argparse\<close> is not modelled.
\<close>

record cmdline =
  cl_minidotr :: string
  cl_output :: string
  cl_fasta :: "string list"
  cl_mapper :: "string option"
  cl_mode :: "string option"
  cl_tmp :: "string option"
  cl_width :: "string option"
  cl_thick :: "string option"
  cl_title :: "string option"
  cl_no_self :: bool
  cl_strip :: bool
  cl_identity :: "string option"

definition or_default :: "string option \<Rightarrow> string \<Rightarrow> string" where
  "or_default v d = (case v of None \<Rightarrow> d | Some s \<Rightarrow> s)"

text \<open>The defaults of the \<^verbatim>\<open>add_argument\<close> calls, lines 13 to 22.\<close>

definition parse_args :: "cmdline \<Rightarrow> args" where
  "parse_args cl =
     \<lparr> minidotr = cl_minidotr cl,
       output = cl_output cl,
       fasta = cl_fasta cl,
       mapper = or_default (cl_mapper cl) ''minimap2'',
       mode = or_default (cl_mode cl) ''asm10'',
       tmp = or_default (cl_tmp cl) ''/tmp'',
       width = or_default (cl_width cl) ''20'',
       thick = or_default (cl_thick cl) ''2'',
       title = cl_title cl,
       no_self = cl_no_self cl,
       strip = cl_strip cl,
       identity = or_default (cl_identity cl) ''0.0'' \<rparr>"

subsection \<open>The outside world and the trace of effects\<close>

text \<open>
  An opened \<^verbatim>\<open>pysam.FastaFile\<close>: its \<^verbatim>\<open>references\<close>, in the order of the file, and
  \<^verbatim>\<open>fetch(reference=r)\<close>, which is \<open>None\<close> where it raises.
\<close>

record fasta_fh =
  references :: "string list"
  fetch :: "string \<Rightarrow> string option"

record env =
  FastaFile :: "string \<Rightarrow> fasta_fh option"
  open_w :: "string \<Rightarrow> bool"
  call :: "string list \<Rightarrow> int option"
  flush_stdout :: bool

text \<open>The three file objects of the script, by the variable that holds them.\<close>

datatype handle = Super_fasta | Tlen | Paf

datatype event =
    Open handle string
  | Write handle string
  | Close handle
  | Call "string list" "handle option"
  | Returned int
  | Print "string list"

datatype error =
    ArgumentError
  | OpenError string
  | FastaOpenError string
  | FetchError string string
  | SpawnError "string list"

record outcome =
  trace :: "event list"
  raised :: "error option"
  exit_code :: int

subsection \<open>The sequence preparer (lines 32 to 40)\<close>

text \<open>The inner loop, lines 36 to 39, over the references still to be fetched.\<close>

fun fetch_loop ::
  "string \<Rightarrow> fasta_fh \<Rightarrow> string \<Rightarrow> string list \<Rightarrow> string list \<Rightarrow> event list \<times> (error + string list)"
where
  "fetch_loop path fasta_fh basename [] join_seq = ([], Inr join_seq)"
| "fetch_loop path fasta_fh basename (reference # rest) join_seq =
     (case fetch fasta_fh reference of
        None \<Rightarrow> ([], Inl (FetchError path reference))
      | Some seq \<Rightarrow>
          (case fetch_loop path fasta_fh basename rest (join_seq @ [seq]) of
             (evs, r) \<Rightarrow> (Write Tlen (tlen_row basename (length seq)) # evs, r)))"

text \<open>The outer loop, lines 32 to 40, over the paths still to be read.\<close>

fun fasta_loop :: "env \<Rightarrow> string list \<Rightarrow> event list \<times> error option" where
  "fasta_loop e [] = ([], None)"
| "fasta_loop e (path # rest) =
     (let basename = fasta_basename path in
      case FastaFile e path of
        None \<Rightarrow> ([], Some (FastaOpenError path))
      | Some fasta_fh \<Rightarrow>
          (case fetch_loop path fasta_fh basename (references fasta_fh) [] of
             (evs, Inl err) \<Rightarrow> (evs, Some err)
           | (evs, Inr join_seq) \<Rightarrow>
               (case fasta_loop e rest of
                  (evs', r) \<Rightarrow>
                    (evs @ Write Super_fasta (fasta_entry basename join_seq) # evs', r))))"

subsection \<open>The two child processes (lines 44 to 63)\<close>

text \<open>Line 45: the argument vector of the aligner.\<close>

definition mapper_argv :: "args \<Rightarrow> string list" where
  "mapper_argv a =
     (let prefix = prefix_of (output a) in
      [mapper a, ''-x'', mode a, ''--no-long-join'', ''--dual=yes'', ''-P'',
       prefix @ ''fa'', prefix @ ''fa''])"

text \<open>Lines 48 to 60: a string is truthy when it is not empty, \<^verbatim>\<open>None\<close> is falsy.\<close>

definition Rargs :: "args \<Rightarrow> string list" where
  "Rargs a =
     (let prefix = prefix_of (output a) in
      [''-i'', prefix @ ''paf'', ''-l'', prefix @ ''tlen'', ''-o'', output a]
      @ (if no_self a then [''--no-self''] else [])
      @ (if strip a then [''--strip''] else [])
      @ (case title a of None \<Rightarrow> [] | Some t \<Rightarrow> if t \<noteq> [] then [''--title'', t] else [])
      @ (if width a \<noteq> [] then [''--width'', width a] else [])
      @ (if thick a \<noteq> [] then [''--thick'', thick a] else [])
      @ (if identity a \<noteq> [] then [''--identity'', identity a] else []))"

definition aborted :: "event list \<Rightarrow> error \<Rightarrow> outcome" where
  "aborted tr err = \<lparr> trace = tr, raised = Some err, exit_code = 1 \<rparr>"

text \<open>
  The exit status of the interpreter once line 62 has run. Standard output is buffered, as
  it is when it is a file or a pipe: \<^verbatim>\<open>print(Rargs)\<close> leaves its line in the buffer, and the
  interpreter writes the buffer out when it shuts down. If that fails, the exit status is
  120, whatever it would have been.
\<close>

definition at_exit :: "env \<Rightarrow> int \<Rightarrow> int" where
  "at_exit e status = (if flush_stdout e then status else 120)"

text \<open>
  Lines 44 to 63. The value \<^verbatim>\<open>call\<close> returns is dropped both times; the script then
  runs off its end, which is exit status 0. An uncaught exception is exit status 1.
\<close>

definition run_children :: "env \<Rightarrow> args \<Rightarrow> event list \<Rightarrow> outcome" where
  "run_children e a tr0 =
     (let prefix = prefix_of (output a) in
      if \<not> open_w e (prefix @ ''paf'') then aborted tr0 (OpenError (prefix @ ''paf''))
      else
        let tr1 = tr0 @ [Open Paf (prefix @ ''paf''), Call (mapper_argv a) (Some Paf)] in
        case call e (mapper_argv a) of
          None \<Rightarrow> aborted tr1 (SpawnError (mapper_argv a))
        | Some rc \<Rightarrow>
            let tr2 = tr1 @ [Returned rc, Close Paf, Print (Rargs a),
                             Call (minidotr a # Rargs a) None] in
            (case call e (minidotr a # Rargs a) of
               None \<Rightarrow>
                 \<lparr> trace = tr2, raised = Some (SpawnError (minidotr a # Rargs a)),
                   exit_code = at_exit e 1 \<rparr>
             | Some rc' \<Rightarrow>
                 \<lparr> trace = tr2 @ [Returned rc'], raised = None, exit_code = at_exit e 0 \<rparr>))"

text \<open>Lines 25 to 63, for a parsed namespace.\<close>

definition main :: "env \<Rightarrow> args \<Rightarrow> outcome" where
  "main e a =
     (let prefix = prefix_of (output a) in
      if \<not> open_w e (prefix @ ''fa'') then aborted [] (OpenError (prefix @ ''fa''))
      else if \<not> open_w e (prefix @ ''tlen'')
      then aborted [Open Super_fasta (prefix @ ''fa'')] (OpenError (prefix @ ''tlen''))
      else
        let tr0 = [Open Super_fasta (prefix @ ''fa''), Open Tlen (prefix @ ''tlen'')] in
        case fasta_loop e (fasta a) of
          (evs, Some err) \<Rightarrow> aborted (tr0 @ evs) err
        | (evs, None) \<Rightarrow> run_children e a (tr0 @ evs @ [Close Tlen]))"

text \<open>
  The whole script. \<^verbatim>\<open>nargs='+'\<close> refuses a command line with no FASTA path: the
  parser prints its usage and exits with status 2 before anything is opened.
\<close>

definition minidot :: "env \<Rightarrow> cmdline \<Rightarrow> outcome" where
  "minidot e cl =
     (if cl_fasta cl = [] then \<lparr> trace = [], raised = Some ArgumentError, exit_code = 2 \<rparr>
      else main e (parse_args cl))"

subsection \<open>Reading a trace\<close>

fun writes :: "handle \<Rightarrow> event list \<Rightarrow> string list" where
  "writes h [] = []"
| "writes h (Write h' s # tr) = (if h' = h then s # writes h tr else writes h tr)"
| "writes h (_ # tr) = writes h tr"

fun calls :: "event list \<Rightarrow> (string list \<times> handle option) list" where
  "calls [] = []"
| "calls (Call argv redirect # tr) = (argv, redirect) # calls tr"
| "calls (_ # tr) = calls tr"

fun returns :: "event list \<Rightarrow> int list" where
  "returns [] = []"
| "returns (Returned rc # tr) = rc # returns tr"
| "returns (_ # tr) = returns tr"

subsection \<open>What the specification says, in its own words\<close>

text \<open>
  A path is readable when \<^verbatim>\<open>pysam.FastaFile\<close> opens it and every reference it lists can
  be fetched.
\<close>

definition readable_file :: "env \<Rightarrow> string \<Rightarrow> bool" where
  "readable_file e path =
     (case FastaFile e path of
        None \<Rightarrow> False
      | Some fh \<Rightarrow> list_all (\<lambda>r. fetch fh r \<noteq> None) (references fh))"

definition readable :: "env \<Rightarrow> string list \<Rightarrow> bool" where
  "readable e paths = list_all (readable_file e) paths"

text \<open>The sub-sequences of the file at a path, in the order of the file, and their number.\<close>

definition file_seqs :: "env \<Rightarrow> string \<Rightarrow> string list" where
  "file_seqs e path =
     (case FastaFile e path of
        None \<Rightarrow> []
      | Some fh \<Rightarrow> map (\<lambda>r. case fetch fh r of None \<Rightarrow> [] | Some s \<Rightarrow> s) (references fh))"


text \<open>The substring before the first dot.\<close>

definition before_first_dot :: "string \<Rightarrow> string" where
  "before_first_dot s = takeWhile (\<lambda>c. c \<noteq> CHR ''.'') s"

text \<open>The specification's name of an input: its basename, cut at the first dot.\<close>

definition spec_name :: "string \<Rightarrow> string" where
  "spec_name path = before_first_dot (rev (takeWhile (\<lambda>c. c \<noteq> CHR ''/'') (rev path)))"

text \<open>
  The specification's concatenated record (one entry per path, in argument order) and its
  length table (one row per sub-sequence, grouped by file, in encounter order).
\<close>

definition spec_entries :: "env \<Rightarrow> string list \<Rightarrow> string list" where
  "spec_entries e paths =
     map (\<lambda>p. ''>'' @ spec_name p @ [NL] @ concat (file_seqs e p) @ [NL]) paths"

definition spec_rows :: "env \<Rightarrow> string list \<Rightarrow> string list" where
  "spec_rows e paths =
     concat (map (\<lambda>p. map (\<lambda>s. spec_name p @ [TAB] @ str_of_nat (length s) @ [NL])
                         (file_seqs e p)) paths)"




text \<open>
  What a file that cannot be read leaves behind: the rows of the references fetched before
  the first one that fails (none when the file cannot be opened), and the exception.
\<close>

definition rows_before_failure :: "env \<Rightarrow> string \<Rightarrow> string list" where
  "rows_before_failure e path =
     (case FastaFile e path of
        None \<Rightarrow> []
      | Some fh \<Rightarrow>
          map (\<lambda>r. spec_name path @ [TAB] @
                     str_of_nat (length (case fetch fh r of None \<Rightarrow> [] | Some s \<Rightarrow> s)) @ [NL])
            (takeWhile (\<lambda>r. fetch fh r \<noteq> None) (references fh)))"

definition failure_of :: "env \<Rightarrow> string \<Rightarrow> error" where
  "failure_of e path =
     (case FastaFile e path of
        None \<Rightarrow> FastaOpenError path
      | Some fh \<Rightarrow>
          FetchError path (hd (dropWhile (\<lambda>r. fetch fh r \<noteq> None) (references fh))))"

text \<open>
  The renderer's arguments as the specification words them: the base arguments, and each
  option exactly when the command line supplied it.
\<close>

definition supplied_Rargs :: "cmdline \<Rightarrow> string list" where
  "supplied_Rargs cl =
     [''-i'', before_first_dot (cl_output cl) @ ''.paf'',
      ''-l'', before_first_dot (cl_output cl) @ ''.tlen'', ''-o'', cl_output cl]
     @ (if cl_no_self cl then [''--no-self''] else [])
     @ (if cl_strip cl then [''--strip''] else [])
     @ (case cl_title cl of None \<Rightarrow> [] | Some t \<Rightarrow> [''--title'', t])
     @ (case cl_width cl of None \<Rightarrow> [] | Some w \<Rightarrow> [''--width'', w])
     @ (case cl_thick cl of None \<Rightarrow> [] | Some t \<Rightarrow> [''--thick'', t])
     @ (case cl_identity cl of None \<Rightarrow> [] | Some i \<Rightarrow> [''--identity'', i])"

text \<open>What the script forwards: an option is passed on when its parsed value is truthy.\<close>

definition forwarded :: "string \<Rightarrow> string \<Rightarrow> string list" where
  "forwarded flag v = (if v = [] then [] else [flag, v])"

text \<open>
  The renderer's arguments as the script builds them from a command line: the two
  switches when given, the title when given and not empty, and width, thickness and
  identity with the value given or else the parser's default.
\<close>

definition forwarded_Rargs :: "cmdline \<Rightarrow> string list" where
  "forwarded_Rargs cl =
     [''-i'', before_first_dot (cl_output cl) @ ''.paf'',
      ''-l'', before_first_dot (cl_output cl) @ ''.tlen'', ''-o'', cl_output cl]
     @ (if cl_no_self cl then [''--no-self''] else [])
     @ (if cl_strip cl then [''--strip''] else [])
     @ (case cl_title cl of None \<Rightarrow> [] | Some t \<Rightarrow> forwarded ''--title'' t)
     @ forwarded ''--width'' (case cl_width cl of None \<Rightarrow> ''20'' | Some w \<Rightarrow> w)
     @ forwarded ''--thick'' (case cl_thick cl of None \<Rightarrow> ''2'' | Some t \<Rightarrow> t)
     @ forwarded ''--identity'' (case cl_identity cl of None \<Rightarrow> ''0.0'' | Some i \<Rightarrow> i)"

text \<open>The aligner's argument vector as the specification words it.\<close>

definition spec_mapper_argv :: "cmdline \<Rightarrow> string list" where
  "spec_mapper_argv cl =
     [case cl_mapper cl of None \<Rightarrow> ''minimap2'' | Some m \<Rightarrow> m, ''-x'',
      case cl_mode cl of None \<Rightarrow> ''asm10'' | Some m \<Rightarrow> m,
      ''--no-long-join'', ''--dual=yes'', ''-P'',
      before_first_dot (cl_output cl) @ ''.fa'', before_first_dot (cl_output cl) @ ''.fa'']"

subsection \<open>A small world to run the script in\<close>

text \<open>
  Two FASTA files, one with two sequences below a directory and one with one sequence; any
  other path cannot be opened. The aligner exits with 1 and the renderer with 3, and
  standard output can be flushed.
\<close>

definition example_a :: fasta_fh where
  "example_a =
     \<lparr> references = [''s1'', ''s2''],
       fetch = (\<lambda>r. if r = ''s1'' then Some ''ACGT'' else if r = ''s2'' then Some ''GG''
                    else None) \<rparr>"

definition example_b :: fasta_fh where
  "example_b =
     \<lparr> references = [''chr''],
       fetch = (\<lambda>r. if r = ''chr'' then Some ''TTTTTTTTTTTT'' else None) \<rparr>"

definition example_env :: env where
  "example_env =
     \<lparr> FastaFile = (\<lambda>p. if p = ''dir/a.fa.gz'' then Some example_a
                         else if p = ''b.fa'' then Some example_b else None),
       open_w = (\<lambda>p. True),
       call = (\<lambda>argv. if take 1 argv = [''minimap2''] then Some 1 else Some 3),
       flush_stdout = True \<rparr>"

definition example_cmdline :: cmdline where
  "example_cmdline =
     \<lparr> cl_minidotr = ''minidot.R'', cl_output = ''out.v2.pdf'',
       cl_fasta = [''dir/a.fa.gz'', ''b.fa''],
       cl_mapper = None, cl_mode = None, cl_tmp = None, cl_width = None, cl_thick = None,
       cl_title = None, cl_no_self = False, cl_strip = False, cl_identity = None \<rparr>"

definition example_args :: args where
  "example_args = parse_args example_cmdline"

text \<open>The same command line with a path that cannot be opened between the two files.\<close>

definition example_missing :: args where
  "example_missing = example_args \<lparr> fasta := [''dir/a.fa.gz'', ''missing.fa'', ''b.fa''] \<rparr>"

text \<open>
  A world where that path opens, and lists between two references of the first file one
  that cannot be fetched.
\<close>

definition example_broken :: env where
  "example_broken =
     example_env \<lparr> FastaFile :=
       (FastaFile example_env)
         (''missing.fa'' := Some (example_a \<lparr> references := [''s1'', ''gone'', ''s2''] \<rparr>)) \<rparr>"

text \<open>The command line \<^verbatim>\<open>--title "My Plot" --no-self\<close>.\<close>

definition example_titled :: cmdline where
  "example_titled = example_cmdline \<lparr> cl_title := Some ''My Plot'', cl_no_self := True \<rparr>"

section \<open>Properties\<close>

subsection \<open>Splitting strings\<close>

lemma split_str_nonempty: "split_str c s \<noteq> []"
  by (induction s) auto

lemma hd_split_str: "hd (split_str c s) = takeWhile (\<lambda>x. x \<noteq> c) s"
  by (induction s) auto

lemma split_str_no_sep: "c \<notin> set s \<Longrightarrow> split_str c s = [s]"
  by (induction s) auto

lemma split_str_two: "c \<in> set s \<Longrightarrow> tl (split_str c s) \<noteq> []"
  by (induction s) (auto simp: split_str_nonempty)

lemma last_split_str: "last (split_str c s) = rev (takeWhile (\<lambda>x. x \<noteq> c) (rev s))"
proof (induction s)
  case Nil
  show ?case by simp
next
  case (Cons x xs)
  show ?case
  proof (cases "c \<in> set xs")
    case True
    then have tw: "takeWhile (\<lambda>x. x \<noteq> c) (rev xs @ [x]) = takeWhile (\<lambda>x. x \<noteq> c) (rev xs)"
      by simp
    have "last (split_str c (x # xs)) = last (split_str c xs)"
      using split_str_two [OF True] split_str_nonempty [of c xs]
      by (cases "split_str c xs") auto
    with Cons tw show ?thesis by simp
  next
    case False
    then have "takeWhile (\<lambda>x. x \<noteq> c) (rev xs @ ys) = rev xs @ takeWhile (\<lambda>x. x \<noteq> c) ys" for ys
      by (intro takeWhile_append2) auto
    with False show ?thesis
      by (simp add: split_str_no_sep)
  qed
qed

lemma prefix_of_spec: "prefix_of out = before_first_dot out @ ''.''"
  by (simp add: prefix_of_def before_first_dot_def hd_split_str)

lemma fasta_basename_spec: "fasta_basename p = spec_name p"
  by (simp add: fasta_basename_def spec_name_def os_path_basename_def before_first_dot_def
      hd_split_str last_split_str)

subsection \<open>Traces\<close>

lemma writes_append: "writes h (xs @ ys) = writes h xs @ writes h ys"
  by (induction h xs rule: writes.induct) auto

lemma calls_append: "calls (xs @ ys) = calls xs @ calls ys"
  by (induction xs rule: calls.induct) auto

lemma returns_append: "returns (xs @ ys) = returns xs @ returns ys"
  by (induction xs rule: returns.induct) auto


subsection \<open>The two loops\<close>

lemma fetch_loop_ok:
  "list_all (\<lambda>r. fetch fh r \<noteq> None) refs \<Longrightarrow>
   fetch_loop path fh b refs acc =
     (map (\<lambda>r. Write Tlen (tlen_row b (length (case fetch fh r of None \<Rightarrow> [] | Some s \<Rightarrow> s)))) refs,
      Inr (acc @ map (\<lambda>r. case fetch fh r of None \<Rightarrow> [] | Some s \<Rightarrow> s) refs))"
  by (induction refs arbitrary: acc) auto

lemma fetch_loop_fails:
  "\<not> list_all (\<lambda>r. fetch fh r \<noteq> None) refs \<Longrightarrow>
   \<exists>evs err. fetch_loop path fh b refs acc = (evs, Inl err)"
proof (induction refs arbitrary: acc)
  case Nil
  then show ?case by simp
next
  case (Cons r refs)
  show ?case
  proof (cases "fetch fh r")
    case None
    then show ?thesis by simp
  next
    case (Some seq)
    with Cons.prems have "\<not> list_all (\<lambda>r. fetch fh r \<noteq> None) refs" by simp
    from Cons.IH [OF this, of "acc @ [seq]"] Some show ?thesis by auto
  qed
qed

lemma fetch_loop_events:
  "ev \<in> set (fst (fetch_loop path fh b refs acc)) \<Longrightarrow> \<exists>s. ev = Write Tlen s"
proof (induction refs arbitrary: acc)
  case Nil
  then show ?case by simp
next
  case (Cons r refs)
  show ?case
  proof (cases "fetch fh r")
    case None
    with Cons.prems show ?thesis by simp
  next
    case (Some seq)
    obtain evs res where rec: "fetch_loop path fh b refs (acc @ [seq]) = (evs, res)"
      by (cases "fetch_loop path fh b refs (acc @ [seq])") 
    with Cons.prems Some have "ev = Write Tlen (tlen_row b (length seq)) \<or> ev \<in> set evs"
      by auto
    with Cons.IH [of "acc @ [seq]"] rec show ?thesis by auto
  qed
qed

lemma fasta_loop_events:
  "ev \<in> set (fst (fasta_loop e paths)) \<Longrightarrow> \<exists>h s. ev = Write h s"
proof (induction paths)
  case Nil
  then show ?case by simp
next
  case (Cons p paths)
  show ?case
  proof (cases "FastaFile e p")
    case None
    with Cons.prems show ?thesis by simp
  next
    case (Some fh)
    obtain evs res where inner:
      "fetch_loop p fh (fasta_basename p) (references fh) [] = (evs, res)"
      by (cases "fetch_loop p fh (fasta_basename p) (references fh) []")
    have evs: "\<exists>s. x = Write Tlen s" if "x \<in> set evs" for x
      using fetch_loop_events [of x p fh "fasta_basename p" "references fh" "[]"] that inner
      by simp
    obtain evs' r where outer: "fasta_loop e paths = (evs', r)"
      by (cases "fasta_loop e paths")
    show ?thesis
    proof (cases res)
      case (Inl err)
      with Cons.prems Some inner have "ev \<in> set evs" by (simp add: Let_def)
      with evs show ?thesis by blast
    next
      case (Inr join_seq)
      with Cons.prems Some inner outer
      have "ev \<in> set evs \<or> ev = Write Super_fasta (fasta_entry (fasta_basename p) join_seq)
            \<or> ev \<in> set evs'"
        by (auto simp: Let_def)
      with evs Cons.IH outer show ?thesis by fastforce
    qed
  qed
qed

lemma only_writes_calls: "(\<And>ev. ev \<in> set tr \<Longrightarrow> \<exists>h s. ev = Write h s) \<Longrightarrow> calls tr = []"
  by (induction tr rule: calls.induct) auto

lemma only_writes_returns: "(\<And>ev. ev \<in> set tr \<Longrightarrow> \<exists>h s. ev = Write h s) \<Longrightarrow> returns tr = []"
  by (induction tr rule: returns.induct) auto

lemma fasta_loop_calls: "calls (fst (fasta_loop e paths)) = []"
  by (rule only_writes_calls) (rule fasta_loop_events)

lemma fasta_loop_returns: "returns (fst (fasta_loop e paths)) = []"
  by (rule only_writes_returns) (rule fasta_loop_events)

lemma fasta_loop_no_close: "Close h \<notin> set (fst (fasta_loop e paths))"
  using fasta_loop_events by blast

lemma writes_rows:
  "writes h (map (\<lambda>r. Write Tlen (f r)) refs) = (if h = Tlen then map f refs else [])"
  by (induction refs) auto

lemma fasta_loop_ok:
  "readable e paths \<Longrightarrow>
   snd (fasta_loop e paths) = None \<and>
   writes Super_fasta (fst (fasta_loop e paths)) = spec_entries e paths \<and>
   writes Tlen (fst (fasta_loop e paths)) = spec_rows e paths"
proof (induction paths)
  case Nil
  show ?case by (simp add: spec_entries_def spec_rows_def)
next
  case (Cons p paths)
  from Cons.prems obtain fh where fh: "FastaFile e p = Some fh"
    and refs: "list_all (\<lambda>r. fetch fh r \<noteq> None) (references fh)"
    and rest: "readable e paths"
    by (auto simp: readable_def readable_file_def split: option.splits)
  from Cons.IH [OF rest] obtain evs where
    loop: "fasta_loop e paths = (evs, None)"
    and w1: "writes Super_fasta evs = spec_entries e paths"
    and w2: "writes Tlen evs = spec_rows e paths"
    by (cases "fasta_loop e paths") auto
  show ?case
    using fh loop w1 w2
    by (simp add: fetch_loop_ok [OF refs] writes_append writes_rows spec_entries_def
        spec_rows_def file_seqs_def fasta_entry_def tlen_row_def fasta_basename_spec comp_def
        Let_def)
qed

subsection \<open>The run as a whole\<close>

lemma run_children_extends: "\<exists>rest. trace (run_children e a tr0) = tr0 @ rest"
  by (simp add: run_children_def aborted_def Let_def split: option.splits)

lemma run_children_writes: "writes h (trace (run_children e a tr0)) = writes h tr0"
  by (simp add: run_children_def aborted_def Let_def writes_append split: option.splits)

lemma main_prepared:
  assumes "open_w e (prefix_of (output a) @ ''fa'')"
    and "open_w e (prefix_of (output a) @ ''tlen'')"
    and "readable e (fasta a)"
  shows "main e a =
           run_children e a
             ([Open Super_fasta (prefix_of (output a) @ ''fa''),
               Open Tlen (prefix_of (output a) @ ''tlen'')]
              @ fst (fasta_loop e (fasta a)) @ [Close Tlen])"
proof -
  from fasta_loop_ok [OF assms(3)] obtain evs where "fasta_loop e (fasta a) = (evs, None)"
    by (cases "fasta_loop e (fasta a)") simp
  then show ?thesis
    using assms(1,2) by (simp add: main_def Let_def)
qed

lemma main_writes:
  assumes "open_w e (prefix_of (output a) @ ''fa'')"
    and "open_w e (prefix_of (output a) @ ''tlen'')"
    and "readable e (fasta a)"
  shows "writes Super_fasta (trace (main e a)) = spec_entries e (fasta a)"
    and "writes Tlen (trace (main e a)) = spec_rows e (fasta a)"
  using fasta_loop_ok [OF assms(3)]
  by (simp_all add: main_prepared [OF assms] run_children_writes writes_append)



lemma example_readable: "readable example_env [''dir/a.fa.gz'', ''b.fa'']"
  by (simp add: readable_def readable_file_def example_env_def example_a_def example_b_def)

lemma example_opens: "open_w example_env p"
  by (simp add: example_env_def)

lemma example_fasta: "fasta example_args = [''dir/a.fa.gz'', ''b.fa'']"
  by (simp add: example_args_def parse_args_def example_cmdline_def)

lemma example_prepared:
  "readable example_env (fasta example_args)"
  by (simp add: example_fasta example_readable)

lemma spec_name_parts:
  assumes "dir = [] \<or> last dir = CHR ''/''"
    and "CHR ''/'' \<notin> set stem" and "CHR ''/'' \<notin> set ext"
    and "CHR ''.'' \<notin> set stem"
    and "ext = [] \<or> hd ext = CHR ''.''"
  shows "spec_name (dir @ stem @ ext) = stem"
proof -
  have tail: "takeWhile (\<lambda>c. c \<noteq> CHR ''/'') (rev dir) = []"
    using assms(1) by (cases dir rule: rev_cases) auto
  have "takeWhile (\<lambda>c. c \<noteq> CHR ''/'') ((rev ext @ rev stem) @ rev dir) =
          (rev ext @ rev stem) @ takeWhile (\<lambda>c. c \<noteq> CHR ''/'') (rev dir)"
    using assms(2,3) by (intro takeWhile_append2) auto
  then have "takeWhile (\<lambda>c. c \<noteq> CHR ''/'') (rev (dir @ stem @ ext)) = rev ext @ rev stem"
    using tail by simp
  moreover have "takeWhile (\<lambda>c. c \<noteq> CHR ''.'') ext = []"
    using assms(5) by (cases ext) auto
  moreover have "takeWhile (\<lambda>c. c \<noteq> CHR ''.'') (stem @ ext) =
          stem @ takeWhile (\<lambda>c. c \<noteq> CHR ''.'') ext"
    using assms(4) by (intro takeWhile_append2) auto
  ultimately show ?thesis
    by (simp add: spec_name_def before_first_dot_def)
qed

lemma str_of_nat_examples:
  "str_of_nat 2 = ''2''" "str_of_nat 4 = ''4''" "str_of_nat 12 = ''12''"
  by (simp_all add: str_of_nat.simps digit_char_def)

lemma example_spec_names:
  "spec_name ''dir/a.fa.gz'' = ''a''" "spec_name ''b.fa'' = ''b''"
  by (simp_all add: spec_name_def before_first_dot_def)

lemma example_file_seqs:
  "file_seqs example_env ''dir/a.fa.gz'' = [''ACGT'', ''GG'']"
  "file_seqs example_env ''b.fa'' = [''TTTTTTTTTTTT'']"
  by (simp_all add: file_seqs_def example_env_def example_a_def example_b_def)

lemma run_children_trace:
  assumes "open_w e (prefix_of (output a) @ ''paf'')"
    and "call e (mapper_argv a) = Some rc"
  shows "trace (run_children e a tr0) =
           tr0 @ [Open Paf (prefix_of (output a) @ ''paf''), Call (mapper_argv a) (Some Paf),
                  Returned rc, Close Paf, Print (Rargs a), Call (minidotr a # Rargs a) None]
               @ (case call e (minidotr a # Rargs a) of None \<Rightarrow> [] | Some rc' \<Rightarrow> [Returned rc'])"
  using assms by (simp add: run_children_def aborted_def Let_def split: option.splits)

lemma run_children_aligner:
  assumes "open_w e (prefix_of (output a) @ ''paf'')"
  shows "\<exists>post. trace (run_children e a tr0) =
           tr0 @ [Open Paf (prefix_of (output a) @ ''paf''), Call (mapper_argv a) (Some Paf)]
               @ post"
  using assms by (simp add: run_children_def aborted_def Let_def split: option.splits)

lemma run_children_done:
  assumes "open_w e (prefix_of (output a) @ ''paf'')"
    and "call e (mapper_argv a) = Some rc"
    and "call e (minidotr a # Rargs a) = Some rc'"
  shows "raised (run_children e a tr0) = None"
    "exit_code (run_children e a tr0) = (if flush_stdout e then 0 else 120)"
  using assms by (simp_all add: run_children_def aborted_def at_exit_def Let_def)

lemma mapper_argv_parse: "mapper_argv (parse_args cl) = spec_mapper_argv cl"
  by (simp add: mapper_argv_def parse_args_def spec_mapper_argv_def or_default_def
      prefix_of_spec Let_def split: option.splits)

lemma Rargs_parse: "Rargs (parse_args cl) = forwarded_Rargs cl"
  by (simp add: Rargs_def parse_args_def forwarded_Rargs_def forwarded_def or_default_def
      prefix_of_spec Let_def split: option.splits)

lemma parse_fields:
  "output (parse_args cl) = cl_output cl" "fasta (parse_args cl) = cl_fasta cl"
  "minidotr (parse_args cl) = cl_minidotr cl"
  by (simp_all add: parse_args_def)

lemma quiet_prefix:
  "calls xs = [] \<Longrightarrow> xs @ ys = pre @ Call argv r # post \<Longrightarrow> \<exists>pre'. pre = xs @ pre'"
proof (induction xs arbitrary: pre)
  case Nil
  then show ?case by simp
next
  case (Cons x xs)
  from Cons.prems(1) have notcall: "x \<noteq> Call argv r" and rest: "calls xs = []"
    by (cases x; simp)+
  with Cons.prems(2) obtain pre0 where pre: "pre = x # pre0" and eq: "xs @ ys = pre0 @ Call argv r # post"
    by (cases pre) auto
  from Cons.IH [OF rest eq] pre show ?case by auto
qed

lemma quiet_no_call: "calls tr = [] \<Longrightarrow> Call argv r \<notin> set tr"
  by (induction tr rule: calls.induct) auto

lemma prepared_quiet:
  "calls ([Open Super_fasta p, Open Tlen q] @ fst (fasta_loop e paths) @ [Close Tlen]) = []"
  by (simp add: calls_append fasta_loop_calls)

lemma example_call_mapper: "call example_env (mapper_argv example_args) = Some 1"
  by (simp add: example_env_def mapper_argv_def Let_def example_args_def parse_args_def
      example_cmdline_def or_default_def)

lemma example_call_renderer: "call example_env (minidotr a # Rargs a) = Some (if minidotr a = ''minimap2'' then 1 else 3)"
  by (simp add: example_env_def)

lemma minidot_main: "cl_fasta cl \<noteq> [] \<Longrightarrow> minidot e cl = main e (parse_args cl)"
  by (simp add: minidot_def)

lemma example_cl_facts:
  "cl_fasta example_cmdline = [''dir/a.fa.gz'', ''b.fa'']"
  "cl_output example_cmdline = ''out.v2.pdf''"
  "cl_minidotr example_cmdline = ''minidot.R''"
  "cl_mapper example_cmdline = None" "cl_mode example_cmdline = None"
  "cl_width example_cmdline = None" "cl_thick example_cmdline = None"
  "cl_identity example_cmdline = None" "cl_title example_cmdline = None"
  "cl_no_self example_cmdline = False" "cl_strip example_cmdline = False"
  by (simp_all add: example_cmdline_def)

lemma example_prefix: "before_first_dot ''out.v2.pdf'' = ''out''"
  by (simp add: before_first_dot_def)

lemma main_complete:
  assumes "open_w e (prefix_of (output a) @ ''fa'')"
    and "open_w e (prefix_of (output a) @ ''tlen'')"
    and "open_w e (prefix_of (output a) @ ''paf'')"
    and "readable e (fasta a)"
    and "call e (mapper_argv a) = Some rc"
  shows "calls (trace (main e a)) = [(mapper_argv a, Some Paf), (minidotr a # Rargs a, None)]"
    and "returns (trace (main e a)) =
           rc # (case call e (minidotr a # Rargs a) of None \<Rightarrow> [] | Some rc' \<Rightarrow> [rc'])"
    and "call e (minidotr a # Rargs a) = Some rc' \<Longrightarrow> raised (main e a) = None"
    and "call e (minidotr a # Rargs a) = Some rc' \<Longrightarrow>
         exit_code (main e a) = (if flush_stdout e then 0 else 120)"
proof -
  note m = main_prepared [OF assms(1,2,4)]
  note t = run_children_trace [OF assms(3,5)]
  show "calls (trace (main e a)) = [(mapper_argv a, Some Paf), (minidotr a # Rargs a, None)]"
    unfolding m t by (simp add: calls_append fasta_loop_calls split: option.splits)
  show "returns (trace (main e a)) =
           rc # (case call e (minidotr a # Rargs a) of None \<Rightarrow> [] | Some rc' \<Rightarrow> [rc'])"
    unfolding m t by (simp add: returns_append fasta_loop_returns split: option.splits)
  show "call e (minidotr a # Rargs a) = Some rc' \<Longrightarrow> raised (main e a) = None"
    unfolding m by (rule run_children_done(1) [OF assms(3,5)])
  show "call e (minidotr a # Rargs a) = Some rc' \<Longrightarrow>
         exit_code (main e a) = (if flush_stdout e then 0 else 120)"
    unfolding m by (rule run_children_done(2) [OF assms(3,5)])
qed

lemma example_titled_facts:
  "cl_fasta example_titled = [''dir/a.fa.gz'', ''b.fa'']"
  "cl_output example_titled = ''out.v2.pdf''"
  "cl_minidotr example_titled = ''minidot.R''"
  "cl_mapper example_titled = None" "cl_mode example_titled = None"
  "cl_width example_titled = None" "cl_thick example_titled = None"
  "cl_identity example_titled = None" "cl_title example_titled = Some ''My Plot''"
  "cl_no_self example_titled = True" "cl_strip example_titled = False"
  by (simp_all add: example_titled_def example_cmdline_def)

lemma example_spec_mapper:
  "spec_mapper_argv example_cmdline =
     [''minimap2'', ''-x'', ''asm10'', ''--no-long-join'', ''--dual=yes'', ''-P'', ''out.fa'', ''out.fa'']"
  "spec_mapper_argv example_titled =
     [''minimap2'', ''-x'', ''asm10'', ''--no-long-join'', ''--dual=yes'', ''-P'', ''out.fa'', ''out.fa'']"
  by (simp_all add: spec_mapper_argv_def example_cl_facts example_titled_facts example_prefix)

lemma example_call_spec_mapper:
  "call example_env (spec_mapper_argv example_cmdline) = Some 1"
  "call example_env (spec_mapper_argv example_titled) = Some 1"
  by (simp_all add: example_spec_mapper example_env_def)

lemma minidot_calls:
  assumes "cl_fasta cl \<noteq> []"
    and "open_w e (before_first_dot (cl_output cl) @ ''.fa'')"
    and "open_w e (before_first_dot (cl_output cl) @ ''.tlen'')"
    and "open_w e (before_first_dot (cl_output cl) @ ''.paf'')"
    and "readable e (cl_fasta cl)"
    and "call e (spec_mapper_argv cl) = Some rc"
  shows "calls (trace (minidot e cl)) =
           [(spec_mapper_argv cl, Some Paf), (cl_minidotr cl # forwarded_Rargs cl, None)]"
proof -
  let ?a = "parse_args cl"
  have o1: "open_w e (prefix_of (output ?a) @ ''fa'')"
    and o2: "open_w e (prefix_of (output ?a) @ ''tlen'')"
    and o3: "open_w e (prefix_of (output ?a) @ ''paf'')"
    and rd: "readable e (fasta ?a)"
    and cm: "call e (mapper_argv ?a) = Some rc"
    using assms by (simp_all add: parse_fields prefix_of_spec mapper_argv_parse)
  show ?thesis
    using main_complete(1) [OF o1 o2 o3 rd cm] assms(1)
    by (simp add: minidot_main mapper_argv_parse Rargs_parse parse_fields)
qed

lemma example_calls:
  "calls (trace (minidot example_env example_cmdline)) =
     [([''minimap2'', ''-x'', ''asm10'', ''--no-long-join'', ''--dual=yes'', ''-P'', ''out.fa'', ''out.fa''],
       Some Paf),
      ([''minidot.R'', ''-i'', ''out.paf'', ''-l'', ''out.tlen'', ''-o'', ''out.v2.pdf'',
        ''--width'', ''20'', ''--thick'', ''2'', ''--identity'', ''0.0''], None)]"
proof -
  have ne: "cl_fasta example_cmdline \<noteq> []" by (simp add: example_cl_facts)
  have rd: "readable example_env (cl_fasta example_cmdline)"
    by (simp add: example_cl_facts example_readable)
  show ?thesis
    using minidot_calls [OF ne example_opens example_opens example_opens rd
        example_call_spec_mapper(1)]
    by (simp add: example_spec_mapper forwarded_Rargs_def forwarded_def example_cl_facts
        example_prefix)
qed

lemma example_renderer_returns:
  "call example_env (minidotr example_args # Rargs example_args) = Some 3"
  by (simp add: example_env_def example_args_def parse_args_def example_cmdline_def)

lemma readable_file_call_update: "readable_file (e\<lparr>call := c\<rparr>) = readable_file e"
  by (rule ext) (simp add: readable_file_def)

lemma readable_call_update: "readable (e\<lparr>call := c\<rparr>) paths = readable e paths"
  by (simp add: readable_def readable_file_call_update)

lemma Rargs_tmp: "Rargs (a\<lparr>tmp := t\<rparr>) = Rargs a"
  by (simp add: Rargs_def)

lemma mapper_argv_tmp: "mapper_argv (a\<lparr>tmp := t\<rparr>) = mapper_argv a"
  by (simp add: mapper_argv_def)

lemma run_children_tmp: "run_children e (a\<lparr>tmp := t\<rparr>) tr = run_children e a tr"
  by (simp add: run_children_def Let_def Rargs_tmp mapper_argv_tmp split: option.split)

lemma main_tmp: "main e (a\<lparr>tmp := t\<rparr>) = main e a"
  by (simp add: main_def Let_def run_children_tmp split: option.split prod.split)

lemma parse_args_tmp:
  "parse_args (cl\<lparr>cl_tmp := v\<rparr>) = (parse_args cl)\<lparr>tmp := or_default v ''/tmp''\<rparr>"
  by (simp add: parse_args_def)

lemma example_flushes: "flush_stdout example_env"
  by (simp add: example_env_def)

lemma readable_file_flush_update:
  "readable_file (e\<lparr>flush_stdout := b\<rparr>) = readable_file e"
  by (rule ext) (simp add: readable_file_def)

lemma example_unflushed:
  "open_w (example_env\<lparr>flush_stdout := False\<rparr>) p"
  "readable (example_env\<lparr>flush_stdout := False\<rparr>) (fasta example_args)"
  "call (example_env\<lparr>flush_stdout := False\<rparr>) (mapper_argv example_args) = Some 1"
  "call (example_env\<lparr>flush_stdout := False\<rparr>) (minidotr example_args # Rargs example_args) = Some 3"
  "\<not> flush_stdout (example_env\<lparr>flush_stdout := False\<rparr>)"
  using example_prepared example_call_mapper example_renderer_returns
  by (simp_all add: example_opens readable_def readable_file_flush_update)














lemma run_children_closes:
  "Close h \<in> set (trace (run_children e a tr0)) \<Longrightarrow> h = Paf \<or> Close h \<in> set tr0"
  by (auto simp: run_children_def aborted_def Let_def split: option.splits if_splits)

lemma main_cases:
  obtains (no_fa) "trace (main e a) = []"
  | (no_tlen) "trace (main e a) = [Open Super_fasta (prefix_of (output a) @ ''fa'')]"
  | (failed) "trace (main e a) =
        [Open Super_fasta (prefix_of (output a) @ ''fa''),
         Open Tlen (prefix_of (output a) @ ''tlen'')] @ fst (fasta_loop e (fasta a))"
  | (children) "main e a =
        run_children e a
          ([Open Super_fasta (prefix_of (output a) @ ''fa''),
            Open Tlen (prefix_of (output a) @ ''tlen'')]
           @ fst (fasta_loop e (fasta a)) @ [Close Tlen])"
proof (cases "open_w e (prefix_of (output a) @ ''fa'')")
  case False
  then have "trace (main e a) = []" by (simp add: main_def Let_def aborted_def)
  then show ?thesis by (rule no_fa)
next
  case fa: True
  show ?thesis
  proof (cases "open_w e (prefix_of (output a) @ ''tlen'')")
    case False
    with fa have "trace (main e a) = [Open Super_fasta (prefix_of (output a) @ ''fa'')]"
      by (simp add: main_def Let_def aborted_def)
    then show ?thesis by (rule no_tlen)
  next
    case tlen: True
    obtain evs r where loop: "fasta_loop e (fasta a) = (evs, r)"
      by (cases "fasta_loop e (fasta a)")
    show ?thesis
    proof (cases r)
      case None
      with fa tlen loop show ?thesis
        by (intro children) (simp add: main_def Let_def)
    next
      case (Some err)
      with fa tlen loop show ?thesis
        by (intro failed) (simp add: main_def Let_def aborted_def)
    qed
  qed
qed

lemma fetch_loop_stops:
  "\<not> list_all (\<lambda>r. fetch fh r \<noteq> None) refs \<Longrightarrow>
   fetch_loop path fh b refs acc =
     (map (\<lambda>r. Write Tlen (tlen_row b (length (case fetch fh r of None \<Rightarrow> [] | Some s \<Rightarrow> s))))
        (takeWhile (\<lambda>r. fetch fh r \<noteq> None) refs),
      Inl (FetchError path (hd (dropWhile (\<lambda>r. fetch fh r \<noteq> None) refs))))"
proof (induction refs arbitrary: acc)
  case Nil
  then show ?case by simp
next
  case (Cons r refs)
  show ?case
  proof (cases "fetch fh r")
    case None
    then show ?thesis by simp
  next
    case (Some seq)
    with Cons.prems have "\<not> list_all (\<lambda>r. fetch fh r \<noteq> None) refs" by simp
    from Cons.IH [OF this, of "acc @ [seq]"] Some show ?thesis by simp
  qed
qed

lemma fasta_loop_stops:
  assumes "\<not> readable_file e bad"
  shows "fasta_loop e (bad # rest) =
           (map (Write Tlen) (rows_before_failure e bad), Some (failure_of e bad))"
proof (cases "FastaFile e bad")
  case None
  then show ?thesis by (simp add: rows_before_failure_def failure_of_def)
next
  case (Some fh)
  with assms have "\<not> list_all (\<lambda>r. fetch fh r \<noteq> None) (references fh)"
    by (simp add: readable_file_def)
  from fetch_loop_stops [OF this, of bad "fasta_basename bad" "[]"] Some show ?thesis
    by (simp add: rows_before_failure_def failure_of_def Let_def tlen_row_def
        fasta_basename_spec comp_def)
qed

lemma fasta_loop_append:
  "readable e pre \<Longrightarrow>
   fasta_loop e (pre @ rest) =
     (fst (fasta_loop e pre) @ fst (fasta_loop e rest), snd (fasta_loop e rest))"
proof (induction pre)
  case Nil
  show ?case by simp
next
  case (Cons p pre)
  from Cons.prems obtain fh where fh: "FastaFile e p = Some fh"
    and refs: "list_all (\<lambda>r. fetch fh r \<noteq> None) (references fh)"
    and rest: "readable e pre"
    by (auto simp: readable_def readable_file_def split: option.splits)
  from Cons.IH [OF rest] show ?case
    using fh by (simp add: fetch_loop_ok [OF refs] Let_def split: prod.splits)
qed

lemma writes_map_Write:
  "writes h (map (Write h') rows) = (if h = h' then rows else [])"
  by (induction rows) auto

lemma main_failed:
  assumes "open_w e (prefix_of (output a) @ ''fa'')"
    and "open_w e (prefix_of (output a) @ ''tlen'')"
    and "fasta a = pre @ bad # post"
    and "readable e pre"
    and "\<not> readable_file e bad"
  shows "main e a =
           \<lparr> trace = [Open Super_fasta (prefix_of (output a) @ ''fa''),
                      Open Tlen (prefix_of (output a) @ ''tlen'')]
                     @ fst (fasta_loop e pre) @ map (Write Tlen) (rows_before_failure e bad),
             raised = Some (failure_of e bad), exit_code = 1 \<rparr>"
proof -
  have "fasta_loop e (fasta a) =
          (fst (fasta_loop e pre) @ map (Write Tlen) (rows_before_failure e bad),
           Some (failure_of e bad))"
    unfolding assms(3) fasta_loop_append [OF assms(4)] fasta_loop_stops [OF assms(5)]
    by (simp only: fst_conv snd_conv)
  then show ?thesis
    using assms(1,2) by (simp add: main_def Let_def aborted_def)
qed

lemma main_failed_facts:
  assumes "open_w e (prefix_of (output a) @ ''fa'')"
    and "open_w e (prefix_of (output a) @ ''tlen'')"
    and "fasta a = pre @ bad # post"
    and "readable e pre"
    and "\<not> readable_file e bad"
  shows "raised (main e a) = Some (failure_of e bad)"
    and "exit_code (main e a) = 1"
    and "calls (trace (main e a)) = []"
    and "Close h \<notin> set (trace (main e a))"
    and "writes Super_fasta (trace (main e a)) = spec_entries e pre"
    and "writes Tlen (trace (main e a)) = spec_rows e pre @ rows_before_failure e bad"
    and "take 2 (trace (main e a)) =
           [Open Super_fasta (before_first_dot (output a) @ ''.fa''),
            Open Tlen (before_first_dot (output a) @ ''.tlen'')]"
proof -
  note m = main_failed [OF assms]
  show "take 2 (trace (main e a)) =
           [Open Super_fasta (before_first_dot (output a) @ ''.fa''),
            Open Tlen (before_first_dot (output a) @ ''.tlen'')]"
    by (simp add: m prefix_of_spec)
  show "raised (main e a) = Some (failure_of e bad)" by (simp add: m)
  show "exit_code (main e a) = 1" by (simp add: m)
  have "calls (map (Write Tlen) rows) = []" for rows by (induction rows) simp_all
  then show "calls (trace (main e a)) = []"
    by (simp add: m calls_append fasta_loop_calls)
  show "Close h \<notin> set (trace (main e a))"
    using fasta_loop_no_close [of h e pre] by (auto simp: m)
  show "writes Super_fasta (trace (main e a)) = spec_entries e pre"
    using fasta_loop_ok [OF assms(4)] by (simp add: m writes_append writes_map_Write)
  show "writes Tlen (trace (main e a)) = spec_rows e pre @ rows_before_failure e bad"
    using fasta_loop_ok [OF assms(4)] by (simp add: m writes_append writes_map_Write)
qed

lemma example_missing_facts:
  "fasta example_missing = [''dir/a.fa.gz''] @ ''missing.fa'' # [''b.fa'']"
  "readable example_env [''dir/a.fa.gz'']"
  "\<not> readable_file example_env ''missing.fa''"
  "output example_missing = ''out.v2.pdf''"
  "failure_of example_env ''missing.fa'' = FastaOpenError ''missing.fa''"
  "rows_before_failure example_env ''missing.fa'' = []"
  by (simp_all add: example_missing_def example_args_def parse_args_def example_cmdline_def
      readable_def readable_file_def example_env_def example_a_def failure_of_def
      rows_before_failure_def)

lemma example_broken_facts:
  "open_w example_broken p"
  "readable example_broken [''dir/a.fa.gz'']"
  "\<not> readable_file example_broken ''missing.fa''"
  "failure_of example_broken ''missing.fa'' = FetchError ''missing.fa'' ''gone''"
  "rows_before_failure example_broken ''missing.fa'' = [''missing'' @ [TAB] @ ''4'' @ [NL]]"
  "file_seqs example_broken ''dir/a.fa.gz'' = [''ACGT'', ''GG'']"
  by (simp_all add: example_broken_def readable_def readable_file_def example_env_def
      example_a_def failure_of_def rows_before_failure_def spec_name_def before_first_dot_def
      file_seqs_def str_of_nat.simps digit_char_def)

lemma example_partial:
  "spec_entries example_env [''dir/a.fa.gz''] = [''>a'' @ [CHR 0x0A] @ ''ACGTGG'' @ [CHR 0x0A]]"
  "spec_rows example_env [''dir/a.fa.gz''] =
     [''a'' @ [CHR 0x09] @ ''4'' @ [CHR 0x0A], ''a'' @ [CHR 0x09] @ ''2'' @ [CHR 0x0A]]"
  "spec_entries example_broken [''dir/a.fa.gz''] = [''>a'' @ [CHR 0x0A] @ ''ACGTGG'' @ [CHR 0x0A]]"
  "spec_rows example_broken [''dir/a.fa.gz''] =
     [''a'' @ [CHR 0x09] @ ''4'' @ [CHR 0x0A], ''a'' @ [CHR 0x09] @ ''2'' @ [CHR 0x0A]]"
proof -
  have len: "length ''ACGT'' = 4" "length ''GG'' = 2" by simp_all
  show "spec_entries example_env [''dir/a.fa.gz''] = [''>a'' @ [CHR 0x0A] @ ''ACGTGG'' @ [CHR 0x0A]]"
    by (simp add: spec_entries_def example_spec_names example_file_seqs NL_def)
  show "spec_entries example_broken [''dir/a.fa.gz''] = [''>a'' @ [CHR 0x0A] @ ''ACGTGG'' @ [CHR 0x0A]]"
    by (simp add: spec_entries_def example_spec_names example_broken_facts NL_def)
  show "spec_rows example_env [''dir/a.fa.gz''] =
     [''a'' @ [CHR 0x09] @ ''4'' @ [CHR 0x0A], ''a'' @ [CHR 0x09] @ ''2'' @ [CHR 0x0A]]"
    unfolding spec_rows_def
    by (simp only: list.map concat.simps append_Nil2 append_Nil example_spec_names
        example_file_seqs len str_of_nat_examples) (simp add: TAB_def NL_def)
  show "spec_rows example_broken [''dir/a.fa.gz''] =
     [''a'' @ [CHR 0x09] @ ''4'' @ [CHR 0x0A], ''a'' @ [CHR 0x09] @ ''2'' @ [CHR 0x0A]]"
    unfolding spec_rows_def
    by (simp only: list.map concat.simps append_Nil2 append_Nil example_spec_names
        example_broken_facts len str_of_nat_examples) (simp add: TAB_def NL_def)
qed

section \<open>The claims\<close>



text \<open>
  C2. Output order is determined by input order. The entries written to \<^verbatim>\<open>P.fa\<close> are the
  specification's entries, one per path in argument order, each holding the file's
  sub-sequences concatenated in the order of the file; the rows written to \<^verbatim>\<open>P.tlen\<close> are
  the specification's rows, in encounter order across files and grouped by file.
\<close>

theorem output_order:
  assumes "open_w e (prefix_of (output a) @ ''fa'')"
    and "open_w e (prefix_of (output a) @ ''tlen'')"
    and "readable e (fasta a)"
  shows "writes Super_fasta (trace (main e a)) = spec_entries e (fasta a)
       \<and> writes Tlen (trace (main e a)) = spec_rows e (fasta a)"
  using main_writes [OF assms] by simp

theorem output_order_witness:
  "writes Super_fasta (trace (main example_env example_args)) =
     [''>a'' @ [NL] @ ''ACGTGG'' @ [NL], ''>b'' @ [NL] @ ''TTTTTTTTTTTT'' @ [NL]]
   \<and> writes Tlen (trace (main example_env example_args)) =
     [''a'' @ [TAB] @ ''4'' @ [NL], ''a'' @ [TAB] @ ''2'' @ [NL], ''b'' @ [TAB] @ ''12'' @ [NL]]"
proof -
  have len: "length ''ACGT'' = 4" "length ''GG'' = 2" "length ''TTTTTTTTTTTT'' = 12"
    by simp_all
  show ?thesis
    using output_order [OF example_opens example_opens example_prepared]
    unfolding example_fasta spec_entries_def spec_rows_def
    by (simp only: list.map concat.simps append_Nil2 append_Nil example_spec_names
        example_file_seqs len str_of_nat_examples) simp
qed

text \<open>
  C3. The name of an input is its basename cut at its first dot: for a path made of a
  directory part, a stem without dot and an extension, it is the stem, and
  \<^verbatim>\<open>genome.fa.gz\<close> is named \<^verbatim>\<open>genome\<close>. That name heads the entry written for the path
  and begins every length-table row of the path.
\<close>

theorem entry_name:
  assumes "open_w e (prefix_of (output a) @ ''fa'')"
    and "open_w e (prefix_of (output a) @ ''tlen'')"
    and "readable e (fasta a)"
    and "dir = [] \<or> last dir = CHR ''/''"
    and "CHR ''/'' \<notin> set stem" and "CHR ''/'' \<notin> set ext"
    and "CHR ''.'' \<notin> set stem"
    and "ext = [] \<or> hd ext = CHR ''.''"
  shows "fasta_basename (dir @ stem @ ext) = stem
       \<and> fasta_basename ''genome.fa.gz'' = ''genome''
       \<and> (\<forall>i < length (fasta a).
            writes Super_fasta (trace (main e a)) ! i =
              ''>'' @ fasta_basename (fasta a ! i) @ [NL]
                @ concat (file_seqs e (fasta a ! i)) @ [NL])
       \<and> writes Tlen (trace (main e a)) =
           concat (map (\<lambda>p. map (\<lambda>s. fasta_basename p @ [TAB] @ str_of_nat (length s) @ [NL])
                               (file_seqs e p)) (fasta a))"
proof -
  have "fasta_basename (dir @ stem @ ext) = stem"
    using spec_name_parts [OF assms(4-8)] by (simp add: fasta_basename_spec)
  moreover have "fasta_basename ''genome.fa.gz'' = ''genome''"
    by (simp add: fasta_basename_spec spec_name_def before_first_dot_def)
  moreover have "\<forall>i < length (fasta a).
            writes Super_fasta (trace (main e a)) ! i =
              ''>'' @ fasta_basename (fasta a ! i) @ [NL]
                @ concat (file_seqs e (fasta a ! i)) @ [NL]"
    by (simp add: main_writes(1) [OF assms(1-3)] spec_entries_def fasta_basename_spec)
  moreover have "writes Tlen (trace (main e a)) =
           concat (map (\<lambda>p. map (\<lambda>s. fasta_basename p @ [TAB] @ str_of_nat (length s) @ [NL])
                               (file_seqs e p)) (fasta a))"
    by (simp add: main_writes(2) [OF assms(1-3)] spec_rows_def fasta_basename_spec)
  ultimately show ?thesis by blast
qed

theorem entry_name_witness:
  "fasta_basename (''data/'' @ ''genome'' @ ''.fa.gz'') = ''genome''
   \<and> writes Super_fasta (trace (main example_env example_args)) ! 0 =
       ''>'' @ fasta_basename ''dir/a.fa.gz'' @ [NL] @ ''ACGTGG'' @ [NL]"
proof -
  have h: "[] = [] \<or> last ''data/'' = CHR ''/''" "CHR ''/'' \<notin> set ''genome''"
    "CHR ''/'' \<notin> set ''.fa.gz''" "CHR ''.'' \<notin> set ''genome''"
    "''.fa.gz'' = [] \<or> hd ''.fa.gz'' = CHR ''.''"
    by simp_all
  have d: "''data/'' = [] \<or> last ''data/'' = CHR ''/''" by simp
  show ?thesis
    using entry_name [OF example_opens example_opens example_prepared d h(2-5)]
    by (simp add: example_fasta example_file_seqs)
qed

text \<open>
  C4. With \<open>P\<close> the output path before its first dot, a run whose inputs are readable
  opens \<^verbatim>\<open>P.paf\<close> and then invokes, as its first child process and with its standard
  output redirected to that file, the mapper (default \<^verbatim>\<open>minimap2\<close>) with the arguments
  \<^verbatim>\<open>-x\<close>, the mode (default \<^verbatim>\<open>asm10\<close>), \<^verbatim>\<open>--no-long-join\<close>, \<^verbatim>\<open>--dual=yes\<close>, \<^verbatim>\<open>-P\<close>,
  \<^verbatim>\<open>P.fa\<close> and \<^verbatim>\<open>P.fa\<close>.
\<close>

theorem aligner_invocation:
  assumes "cl_fasta cl \<noteq> []"
    and "open_w e (before_first_dot (cl_output cl) @ ''.fa'')"
    and "open_w e (before_first_dot (cl_output cl) @ ''.tlen'')"
    and "open_w e (before_first_dot (cl_output cl) @ ''.paf'')"
    and "readable e (cl_fasta cl)"
  shows "\<exists>pre post.
           trace (minidot e cl) =
             pre @ [Open Paf (before_first_dot (cl_output cl) @ ''.paf''),
                    Call [case cl_mapper cl of None \<Rightarrow> ''minimap2'' | Some m \<Rightarrow> m, ''-x'',
                          case cl_mode cl of None \<Rightarrow> ''asm10'' | Some m \<Rightarrow> m,
                          ''--no-long-join'', ''--dual=yes'', ''-P'',
                          before_first_dot (cl_output cl) @ ''.fa'',
                          before_first_dot (cl_output cl) @ ''.fa''] (Some Paf)] @ post
           \<and> calls pre = []"
proof -
  let ?a = "parse_args cl"
  let ?pre = "[Open Super_fasta (prefix_of (output ?a) @ ''fa''),
               Open Tlen (prefix_of (output ?a) @ ''tlen'')]
              @ fst (fasta_loop e (fasta ?a)) @ [Close Tlen]"
  have o1: "open_w e (prefix_of (output ?a) @ ''fa'')"
    and o2: "open_w e (prefix_of (output ?a) @ ''tlen'')"
    and o3: "open_w e (prefix_of (output ?a) @ ''paf'')"
    and rd: "readable e (fasta ?a)"
    using assms by (simp_all add: parse_fields prefix_of_spec)
  have m: "main e ?a = run_children e ?a ?pre"
    by (rule main_prepared [OF o1 o2 rd])
  from run_children_aligner [OF o3, of ?pre] obtain post where
    "trace (run_children e ?a ?pre) =
       ?pre @ [Open Paf (prefix_of (output ?a) @ ''paf''), Call (mapper_argv ?a) (Some Paf)] @ post"
    by blast
  then have "trace (minidot e cl) =
       ?pre @ [Open Paf (before_first_dot (cl_output cl) @ ''.paf''),
               Call (spec_mapper_argv cl) (Some Paf)] @ post"
    using m assms(1)
    by (simp add: minidot_main mapper_argv_parse parse_fields prefix_of_spec)
  moreover have "calls ?pre = []" by (rule prepared_quiet)
  ultimately show ?thesis unfolding spec_mapper_argv_def by blast
qed

theorem aligner_invocation_witness:
  "\<exists>pre post.
     trace (minidot example_env example_cmdline) =
       pre @ [Open Paf ''out.paf'',
              Call [''minimap2'', ''-x'', ''asm10'', ''--no-long-join'', ''--dual=yes'', ''-P'',
                    ''out.fa'', ''out.fa''] (Some Paf)] @ post
     \<and> calls pre = []"
proof -
  have ne: "cl_fasta example_cmdline \<noteq> []" by (simp add: example_cl_facts)
  have rd: "readable example_env (cl_fasta example_cmdline)"
    by (simp add: example_cl_facts example_readable)
  show ?thesis
    using aligner_invocation [OF ne example_opens example_opens example_opens rd]
    by (simp add: example_cl_facts example_prefix)
qed

text \<open>
  C5, as stated, fails. With no option on the command line the renderer's arguments are
  not the base arguments alone: the parser's defaults for width, thickness and identity
  are truthy and are forwarded too.
\<close>

theorem supplied_flags_counterexample:
  "snd (calls (trace (minidot example_env example_cmdline)) ! 1) = None
   \<and> fst (calls (trace (minidot example_env example_cmdline)) ! 1) \<noteq>
       cl_minidotr example_cmdline # supplied_Rargs example_cmdline
   \<and> fst (calls (trace (minidot example_env example_cmdline)) ! 1) =
       cl_minidotr example_cmdline # supplied_Rargs example_cmdline
         @ [''--width'', ''20'', ''--thick'', ''2'', ''--identity'', ''0.0'']"
  by (simp add: example_calls supplied_Rargs_def example_cl_facts example_prefix)

text \<open>
  C5, amended. The renderer is invoked with \<^verbatim>\<open>-i P.paf -l P.tlen -o output\<close>, then
  \<^verbatim>\<open>--no-self\<close> and \<^verbatim>\<open>--strip\<close> exactly when supplied, \<^verbatim>\<open>--title t\<close> exactly when
  supplied with a non-empty \<open>t\<close>, and \<^verbatim>\<open>--width\<close>, \<^verbatim>\<open>--thick\<close> and \<^verbatim>\<open>--identity\<close> always,
  with the value supplied or else the default 20, 2 and 0.0, unless the value supplied is
  the empty string. The witness is the command line \<^verbatim>\<open>--title "My Plot" --no-self\<close>.
\<close>

theorem renderer_invocation:
  assumes "cl_fasta cl \<noteq> []"
    and "open_w e (before_first_dot (cl_output cl) @ ''.fa'')"
    and "open_w e (before_first_dot (cl_output cl) @ ''.tlen'')"
    and "open_w e (before_first_dot (cl_output cl) @ ''.paf'')"
    and "readable e (cl_fasta cl)"
    and "call e (spec_mapper_argv cl) = Some rc"
  shows "calls (trace (minidot e cl)) =
           [(spec_mapper_argv cl, Some Paf),
            (cl_minidotr cl #
               [''-i'', before_first_dot (cl_output cl) @ ''.paf'',
                ''-l'', before_first_dot (cl_output cl) @ ''.tlen'', ''-o'', cl_output cl]
               @ (if cl_no_self cl then [''--no-self''] else [])
               @ (if cl_strip cl then [''--strip''] else [])
               @ (case cl_title cl of None \<Rightarrow> [] | Some t \<Rightarrow> if t = [] then [] else [''--title'', t])
               @ (case cl_width cl of None \<Rightarrow> [''--width'', ''20'']
                  | Some w \<Rightarrow> if w = [] then [] else [''--width'', w])
               @ (case cl_thick cl of None \<Rightarrow> [''--thick'', ''2'']
                  | Some t \<Rightarrow> if t = [] then [] else [''--thick'', t])
               @ (case cl_identity cl of None \<Rightarrow> [''--identity'', ''0.0'']
                  | Some i \<Rightarrow> if i = [] then [] else [''--identity'', i]), None)]"
  using minidot_calls [OF assms]
  by (simp add: forwarded_Rargs_def forwarded_def split: option.splits)

theorem renderer_invocation_witness:
  "calls (trace (minidot example_env example_titled)) ! 1 =
     ([''minidot.R'', ''-i'', ''out.paf'', ''-l'', ''out.tlen'', ''-o'', ''out.v2.pdf'',
       ''--no-self'', ''--title'', ''My Plot'', ''--width'', ''20'', ''--thick'', ''2'',
       ''--identity'', ''0.0''], None)
   \<and> ''--strip'' \<notin> set (fst (calls (trace (minidot example_env example_titled)) ! 1))"
proof -
  have ne: "cl_fasta example_titled \<noteq> []" by (simp add: example_titled_facts)
  have rd: "readable example_env (cl_fasta example_titled)"
    by (simp add: example_titled_facts example_readable)
  show ?thesis
    using renderer_invocation [OF ne example_opens example_opens example_opens rd
        example_call_spec_mapper(2)]
    by (simp add: example_titled_facts example_prefix)
qed

text \<open>
  C6, as stated, fails. In the example run the renderer, which is the last child process,
  returns 3, and the script still ends with exit status 0: line 63 is an expression
  statement, and nothing passes the value of \<^verbatim>\<open>call\<close> to \<^verbatim>\<open>sys.exit\<close>.
\<close>

theorem exit_code_counterexample:
  "last (returns (trace (main example_env example_args))) = 3
   \<and> exit_code (main example_env example_args) = 0"
  using main_complete(2) [OF example_opens example_opens example_opens example_prepared
      example_call_mapper]
    main_complete(4) [OF example_opens example_opens example_opens example_prepared
      example_call_mapper example_renderer_returns]
  by (simp add: example_renderer_returns example_flushes)

text \<open>
  C6, amended. A run that gets through both child processes raises no exception, and its
  exit status does not depend on what the aligner returned (\<open>rc\<close>) or on what the renderer
  returned (\<open>rc'\<close>): it is 0 when the line printed on line 62 can be flushed to standard
  output as the interpreter shuts down, and 120 when it cannot.
\<close>

theorem exit_code_independent:
  assumes "open_w e (prefix_of (output a) @ ''fa'')"
    and "open_w e (prefix_of (output a) @ ''tlen'')"
    and "open_w e (prefix_of (output a) @ ''paf'')"
    and "readable e (fasta a)"
    and "call e (mapper_argv a) = Some rc"
    and "call e (minidotr a # Rargs a) = Some rc'"
  shows "returns (trace (main e a)) = [rc, rc']
       \<and> raised (main e a) = None
       \<and> exit_code (main e a) = (if flush_stdout e then 0 else 120)"
  using main_complete(2,3,4) [OF assms(1-5)] assms(6) by simp

theorem exit_code_independent_witness:
  "returns (trace (main example_env example_args)) = [1, 3]
   \<and> raised (main example_env example_args) = None
   \<and> exit_code (main example_env example_args) = 0
   \<and> returns (trace (main (example_env\<lparr>flush_stdout := False\<rparr>) example_args)) = [1, 3]
   \<and> exit_code (main (example_env\<lparr>flush_stdout := False\<rparr>) example_args) = 120"
  using exit_code_independent [OF example_opens example_opens example_opens example_prepared
      example_call_mapper example_renderer_returns]
    exit_code_independent [OF example_unflushed(1) example_unflushed(1) example_unflushed(1)
      example_unflushed(2,3,4)]
  by (simp add: example_flushes)

text \<open>
  C7, as stated, fails. With an input that cannot be opened after one that can, the run
  stops with the exception of \<^verbatim>\<open>pysam.FastaFile\<close>, and by then \<^verbatim>\<open>P.fa\<close> has received the entry of
  the first file and \<^verbatim>\<open>P.tlen\<close> its two rows: the script has no handler that would remove
  them.
\<close>

theorem partial_output_counterexample:
  "raised (main example_env example_missing) = Some (FastaOpenError ''missing.fa'')
   \<and> writes Super_fasta (trace (main example_env example_missing)) =
       [''>a'' @ [CHR 0x0A] @ ''ACGTGG'' @ [CHR 0x0A]]
   \<and> writes Tlen (trace (main example_env example_missing)) =
       [''a'' @ [CHR 0x09] @ ''4'' @ [CHR 0x0A], ''a'' @ [CHR 0x09] @ ''2'' @ [CHR 0x0A]]"
  using main_failed_facts(1,5,6) [OF example_opens example_opens example_missing_facts(1,2,3)]
  by (simp add: example_missing_facts example_partial)

text \<open>
  C7, amended. When the inputs before \<open>bad\<close> are readable and \<open>bad\<close> is not, the run stops at
  \<open>bad\<close> with the exception of the failing call and exit status 1, invokes no child process
  and closes no file; but the output written so far stays. \<^verbatim>\<open>P.fa\<close> and \<^verbatim>\<open>P.tlen\<close> have been
  opened, \<^verbatim>\<open>P.fa\<close> holds the entries of the inputs before \<open>bad\<close>, and \<^verbatim>\<open>P.tlen\<close> holds their
  rows, followed by the rows of the references of \<open>bad\<close> fetched before the one that failed.
  The witness runs both ways of failing: a file that cannot be opened, and a reference that
  cannot be fetched.
\<close>

theorem failed_input_aborts:
  assumes "open_w e (prefix_of (output a) @ ''fa'')"
    and "open_w e (prefix_of (output a) @ ''tlen'')"
    and "fasta a = pre @ bad # post"
    and "readable e pre"
    and "\<not> readable_file e bad"
  shows "raised (main e a) = Some (failure_of e bad)
       \<and> exit_code (main e a) = 1
       \<and> calls (trace (main e a)) = []
       \<and> (\<forall>h. Close h \<notin> set (trace (main e a)))
       \<and> take 2 (trace (main e a)) =
           [Open Super_fasta (before_first_dot (output a) @ ''.fa''),
            Open Tlen (before_first_dot (output a) @ ''.tlen'')]
       \<and> writes Super_fasta (trace (main e a)) = spec_entries e pre
       \<and> writes Tlen (trace (main e a)) = spec_rows e pre @ rows_before_failure e bad"
  using main_failed_facts [OF assms] by blast

theorem failed_input_aborts_witness:
  "raised (main example_env example_missing) = Some (FastaOpenError ''missing.fa'')
   \<and> exit_code (main example_env example_missing) = 1
   \<and> calls (trace (main example_env example_missing)) = []
   \<and> take 2 (trace (main example_env example_missing)) =
       [Open Super_fasta ''out.fa'', Open Tlen ''out.tlen'']
   \<and> writes Super_fasta (trace (main example_env example_missing)) =
       [''>a'' @ [CHR 0x0A] @ ''ACGTGG'' @ [CHR 0x0A]]
   \<and> writes Tlen (trace (main example_env example_missing)) =
       [''a'' @ [CHR 0x09] @ ''4'' @ [CHR 0x0A], ''a'' @ [CHR 0x09] @ ''2'' @ [CHR 0x0A]]
   \<and> raised (main example_broken example_missing) = Some (FetchError ''missing.fa'' ''gone'')
   \<and> exit_code (main example_broken example_missing) = 1
   \<and> writes Super_fasta (trace (main example_broken example_missing)) =
       [''>a'' @ [CHR 0x0A] @ ''ACGTGG'' @ [CHR 0x0A]]
   \<and> writes Tlen (trace (main example_broken example_missing)) =
       [''a'' @ [CHR 0x09] @ ''4'' @ [CHR 0x0A], ''a'' @ [CHR 0x09] @ ''2'' @ [CHR 0x0A],
        ''missing'' @ [CHR 0x09] @ ''4'' @ [CHR 0x0A]]"
  using failed_input_aborts [OF example_opens example_opens example_missing_facts(1,2,3)]
    failed_input_aborts [OF example_broken_facts(1) example_broken_facts(1)
      example_missing_facts(1) example_broken_facts(2,3)]
  by (simp add: example_missing_facts example_broken_facts example_partial example_prefix
      TAB_def NL_def)

text \<open>
  C8. The exit status of the aligner is never inspected. In a run with readable inputs and
  writable outputs the renderer is invoked, after the aligner, with \<^verbatim>\<open>[args.minidotr] + Rargs\<close>;
  and in a world that differs only in the status the aligner returns, the same two child
  processes are invoked with the same argument vectors.
\<close>

theorem aligner_status_ignored:
  assumes "open_w e (prefix_of (output a) @ ''fa'')"
    and "open_w e (prefix_of (output a) @ ''tlen'')"
    and "open_w e (prefix_of (output a) @ ''paf'')"
    and "readable e (fasta a)"
    and "call e (mapper_argv a) = Some rc"
  shows "calls (trace (main e a)) = [(mapper_argv a, Some Paf), (minidotr a # Rargs a, None)]
       \<and> calls (trace (main (e\<lparr>call := (call e)(mapper_argv a := Some rc')\<rparr>) a)) =
           calls (trace (main e a))"
proof -
  let ?e' = "e\<lparr>call := (call e)(mapper_argv a := Some rc')\<rparr>"
  have 1: "calls (trace (main e a)) = [(mapper_argv a, Some Paf), (minidotr a # Rargs a, None)]"
    by (rule main_complete(1) [OF assms])
  have o: "open_w ?e' (prefix_of (output a) @ ''fa'')"
    "open_w ?e' (prefix_of (output a) @ ''tlen'')"
    "open_w ?e' (prefix_of (output a) @ ''paf'')"
    using assms(1-3) by simp_all
  have rd: "readable ?e' (fasta a)"
    using assms(4) by (simp add: readable_call_update)
  have c: "call ?e' (mapper_argv a) = Some rc'" by simp
  have "calls (trace (main ?e' a)) = [(mapper_argv a, Some Paf), (minidotr a # Rargs a, None)]"
    by (rule main_complete(1) [OF o rd c])
  with 1 show ?thesis by simp
qed

theorem aligner_status_ignored_witness:
  "calls (trace (main (example_env\<lparr>call := (call example_env)(mapper_argv example_args := Some 0)\<rparr>)
                      example_args)) =
     calls (trace (main example_env example_args))
   \<and> length (calls (trace (main example_env example_args))) = 2"
  using aligner_status_ignored [OF example_opens example_opens example_opens example_prepared
      example_call_mapper, of 0]
  by simp

text \<open>
  C9. \<^verbatim>\<open>--tmp\<close> is never read. Two runs whose arguments differ only in its value have the
  same outcome altogether: the same trace (hence the same writes to \<^verbatim>\<open>P.fa\<close> and \<^verbatim>\<open>P.tlen\<close> and
  the same argument vectors of both child processes), the same exception, the same exit
  status. This holds for the parsed namespace and for the command line, whether \<^verbatim>\<open>--tmp\<close> is
  given or left to its default.
\<close>

theorem tmp_unused:
  "main e (a\<lparr>tmp := t\<rparr>) = main e a
   \<and> minidot e (cl\<lparr>cl_tmp := Some t\<rparr>) = minidot e cl
   \<and> minidot e (cl\<lparr>cl_tmp := None\<rparr>) = minidot e cl"
  by (simp add: main_tmp minidot_def parse_args_tmp)

text \<open>
  C10. In every run, whatever is invoked as a child process is invoked after \<^verbatim>\<open>tlen\<close> has
  been closed and after \<^verbatim>\<open>super_fasta\<close> has been opened on \<^verbatim>\<open>P.fa\<close>, and \<^verbatim>\<open>super_fasta\<close> is closed
  neither before that nor at any other point of the run: the aligner, which is given
  \<^verbatim>\<open>P.fa\<close> to read, runs while the handle that wrote the file is still open.
\<close>

theorem tlen_closed_super_fasta_open:
  "Close Super_fasta \<notin> set (trace (main e a))
   \<and> (\<forall>pre argv r post.
         trace (main e a) = pre @ Call argv r # post \<longrightarrow>
           Close Tlen \<in> set pre
           \<and> Open Super_fasta (prefix_of (output a) @ ''fa'') \<in> set pre
           \<and> Close Super_fasta \<notin> set pre)"
proof (cases rule: main_cases [of e a])
  case no_fa
  then show ?thesis by simp
next
  case no_tlen
  then show ?thesis by (auto simp: Cons_eq_append_conv)
next
  case failed
  let ?tr = "[Open Super_fasta (prefix_of (output a) @ ''fa''),
         Open Tlen (prefix_of (output a) @ ''tlen'')] @ fst (fasta_loop e (fasta a))"
  have "calls ?tr = []" by (simp add: calls_append fasta_loop_calls)
  then have "Call argv r \<notin> set ?tr" for argv r by (rule quiet_no_call)
  then have "trace (main e a) \<noteq> pre @ Call argv r # post" for pre argv r post
    unfolding failed by (metis in_set_conv_decomp)
  moreover have "Close Super_fasta \<notin> set (trace (main e a))"
    unfolding failed using fasta_loop_no_close [of Super_fasta e "fasta a"] by simp
  ultimately show ?thesis by blast
next
  case children
  let ?tr0 = "[Open Super_fasta (prefix_of (output a) @ ''fa''),
            Open Tlen (prefix_of (output a) @ ''tlen'')]
           @ fst (fasta_loop e (fasta a)) @ [Close Tlen]"
  have quiet: "calls ?tr0 = []" by (rule prepared_quiet)
  have open0: "Close Super_fasta \<notin> set ?tr0"
    using fasta_loop_no_close [of Super_fasta e "fasta a"] by simp
  have never: "Close Super_fasta \<notin> set (trace (main e a))"
    unfolding children using run_children_closes [of Super_fasta e a ?tr0] open0 by blast
  obtain rest where rest: "trace (main e a) = ?tr0 @ rest"
    unfolding children using run_children_extends [of e a ?tr0] by blast
  have "Close Tlen \<in> set pre \<and> Open Super_fasta (prefix_of (output a) @ ''fa'') \<in> set pre
        \<and> Close Super_fasta \<notin> set pre"
    if split: "trace (main e a) = pre @ Call argv r # post" for pre argv r post
  proof -
    from split rest have "?tr0 @ rest = pre @ Call argv r # post" by simp
    from quiet_prefix [OF quiet this] obtain pre' where pre: "pre = ?tr0 @ pre'" by blast
    from never split have "Close Super_fasta \<notin> set pre" by simp
    with pre show ?thesis by simp
  qed
  with never show ?thesis by blast
qed

theorem tlen_closed_super_fasta_open_witness:
  "\<exists>pre post.
     trace (main example_env example_args) =
       pre @ Call (mapper_argv example_args) (Some Paf) # post
     \<and> Close Tlen \<in> set pre
     \<and> Open Super_fasta ''out.fa'' \<in> set pre
     \<and> Close Super_fasta \<notin> set pre
     \<and> Close Super_fasta \<notin> set post"
proof -
  let ?tr0 = "[Open Super_fasta (prefix_of (output example_args) @ ''fa''),
            Open Tlen (prefix_of (output example_args) @ ''tlen'')]
           @ fst (fasta_loop example_env (fasta example_args)) @ [Close Tlen]"
  have m: "main example_env example_args = run_children example_env example_args ?tr0"
    by (rule main_prepared [OF example_opens example_opens example_prepared])
  from run_children_aligner [OF example_opens, of example_args ?tr0] obtain post where
    split: "trace (main example_env example_args) =
       (?tr0 @ [Open Paf (prefix_of (output example_args) @ ''paf'')])
         @ Call (mapper_argv example_args) (Some Paf) # post"
    unfolding m by auto
  have p: "prefix_of (output example_args) @ ''fa'' = ''out.fa''"
    by (simp add: example_args_def parse_fields example_cl_facts prefix_of_spec example_prefix)
  from tlen_closed_super_fasta_open [of example_env example_args] split
  have "Close Tlen \<in> set (?tr0 @ [Open Paf (prefix_of (output example_args) @ ''paf'')])"
    and "Open Super_fasta ''out.fa'' \<in> set (?tr0 @ [Open Paf (prefix_of (output example_args) @ ''paf'')])"
    and "Close Super_fasta \<notin> set (?tr0 @ [Open Paf (prefix_of (output example_args) @ ''paf'')])"
    and "Close Super_fasta \<notin> set post"
    unfolding p [symmetric] by (blast, blast, blast, auto)
  with split show ?thesis by blast
qed

end
